theory Spec2Isabelle
  imports Main "HOL-Library.Word"
begin

section \<open>Token model\<close>

text \<open>
  The lexer of PicoRV (\<^verbatim>\<open>src/Lexer.cpp\<close>) turns assembly text into a queue of tokens.
\<close>

text \<open>
  Modelled from the spec: the declarations of \<^verbatim>\<open>TokenType\<close> and \<^verbatim>\<open>Token\<close>, which are in
  \<^verbatim>\<open>include/Lexer.h\<close>, a file that is not among the sources.  The spec gives a token a
  category out of a closed set of six, the lexeme, and the line and the column where it
  begins.  \<^verbatim>\<open>Lexer.cpp\<close> agrees: \<^verbatim>\<open>printTokens\<close> names the six enumerators and the four
  fields, and \<^verbatim>\<open>tokenize\<close> builds a token as \<^verbatim>\<open>Token(type, lexeme, line, column)\<close> from
  \<^verbatim>\<open>int line\<close> and \<^verbatim>\<open>int column\<close>.
\<close>

datatype TokenType = INSTRUCTION | REGISTER | IMMEDIATE | LABEL | END_OF_LINE | ERROR

text \<open>A C++ \<^verbatim>\<open>int\<close> is a 32-bit word; \<open>sint\<close> reads its value.\<close>

type_synonym cint = "32 word"

record Token =
  type :: TokenType
  lexeme :: string
  line :: cint
  column :: cint

text \<open>The two exception classes the lexer throws, each with its message.\<close>

datatype exception = runtime_error string | out_of_range string

section \<open>Character classes\<close>

text \<open>\<^verbatim>\<open>std::isdigit\<close> and \<^verbatim>\<open>std::isxdigit\<close> on an \<^verbatim>\<open>unsigned char\<close>.\<close>

definition isdigit :: "char \<Rightarrow> bool" where
  "isdigit c \<longleftrightarrow> 48 \<le> (of_char c :: nat) \<and> (of_char c :: nat) \<le> 57"

definition isxdigit :: "char \<Rightarrow> bool" where
  "isxdigit c \<longleftrightarrow>
     isdigit c \<or> (97 \<le> (of_char c :: nat) \<and> (of_char c :: nat) \<le> 102)
               \<or> (65 \<le> (of_char c :: nat) \<and> (of_char c :: nat) \<le> 70)"

text \<open>The bracket expression \<^verbatim>\<open>[a-zA-Z0-9_]\<close> of the regular expression.\<close>

definition word_char :: "char \<Rightarrow> bool" where
  "word_char c \<longleftrightarrow>
     (97 \<le> (of_char c :: nat) \<and> (of_char c :: nat) \<le> 122)
   \<or> (65 \<le> (of_char c :: nat) \<and> (of_char c :: nat) \<le> 90)
   \<or> (48 \<le> (of_char c :: nat) \<and> (of_char c :: nat) \<le> 57)
   \<or> c = CHR ''_''"

section \<open>Classification: \<^verbatim>\<open>Lexer::tokenize\<close>\<close>

text \<open>
  The register loop (\<^verbatim>\<open>for (size_t i = 1; i < length; ++i)\<close>) over the characters after
  the \<^verbatim>\<open>x\<close>, with the running \<^verbatim>\<open>reg_num\<close>; the result is the final \<^verbatim>\<open>valid\<close>.  The
  loop leaves as soon as \<^verbatim>\<open>reg_num\<close> exceeds 31, so \<^verbatim>\<open>reg_num\<close> never exceeds 319 and the
  \<^verbatim>\<open>int\<close> arithmetic cannot overflow: it is modelled on \<open>int\<close>.
\<close>

fun register_loop :: "int \<Rightarrow> string \<Rightarrow> bool" where
  "register_loop reg_num [] = True"
| "register_loop reg_num (c # cs) =
     (if \<not> isdigit c then False
      else (let reg_num' = reg_num * 10 + (int (of_char c) - 48)
            in if reg_num' > 31 then False else register_loop reg_num' cs))"

text \<open>The test of the binary loop: \<^verbatim>\<open>c != '0' && c != '1'\<close> makes the lexeme invalid.\<close>

definition bin_digit :: "char \<Rightarrow> bool" where
  "bin_digit c \<longleftrightarrow> \<not> (c \<noteq> CHR ''0'' \<and> c \<noteq> CHR ''1'')"

text \<open>
  The category \<^verbatim>\<open>tokenize\<close> computes for the \<^verbatim>\<open>length\<close> characters at \<^verbatim>\<open>str\<close>, here the
  string \<open>str\<close>.  \<open>first_type\<close> is the value of \<^verbatim>\<open>type\<close> after the
  instruction/register/immediate chain, \<open>token_type\<close> its value after the label check.
\<close>

definition first_type :: "string set \<Rightarrow> string \<Rightarrow> TokenType" where
  "first_type instructions str =
     (if str \<in> instructions then INSTRUCTION
      else if length str \<ge> 2 \<and> str ! 0 = CHR ''x'' then
        (if register_loop 0 (drop 1 str) then REGISTER else ERROR)
      else if length str > 0 then
        (if length str > 2 \<and> str ! 0 = CHR ''0'' \<and> str ! 1 = CHR ''b'' then
           (if list_all bin_digit (drop 2 str) then IMMEDIATE else ERROR)
         else if length str > 2 \<and> str ! 0 = CHR ''0'' \<and> str ! 1 = CHR ''x'' then
           (if list_all isxdigit (drop 2 str) then IMMEDIATE else ERROR)
         else
           (if list_all isdigit str then IMMEDIATE else ERROR))
      else ERROR)"

definition token_type :: "string set \<Rightarrow> string \<Rightarrow> TokenType" where
  "token_type instructions str =
     (let type1 = first_type instructions str in
      if type1 = ERROR \<and> length str > 0 \<and> str ! (length str - 1) = CHR '':'' then
        (if list_ex (\<lambda>c. c = CHR ''_'') (take (length str - 1) str) then type1 else LABEL)
      else type1)"

definition tokenize :: "string set \<Rightarrow> string \<Rightarrow> cint \<Rightarrow> cint \<Rightarrow> Token" where
  "tokenize instructions str ln col =
     \<lparr>type = token_type instructions str, lexeme = str, line = ln, column = col\<rparr>"

section \<open>Scanning: the constructor \<^verbatim>\<open>Lexer::Lexer\<close>\<close>

text \<open>
  The source stream: whether it is open, and the characters still to be read.
\<close>

record ifstream =
  is_open :: bool
  content :: string

text \<open>
  The lines that the repeated \<^verbatim>\<open>std::getline(source, line)\<close> of the \<^verbatim>\<open>while\<close> loop
  yields: each call takes the characters up to the next newline, which it drops; at the
  end of the input with nothing read it fails, and the loop ends.
\<close>

function getlines :: "string \<Rightarrow> string list" where
  "getlines [] = []"
| "getlines (c # cs) =
     (case dropWhile (\<lambda>d. d \<noteq> CHR 0x0A) (c # cs) of
        [] \<Rightarrow> [takeWhile (\<lambda>d. d \<noteq> CHR 0x0A) (c # cs)]
      | nl # rest \<Rightarrow> takeWhile (\<lambda>d. d \<noteq> CHR 0x0A) (c # cs) # getlines rest)"
  by pat_completeness auto
termination
proof (relation "measure length")
  show "wf (measure length)" by simp
next
  fix c :: char and cs nl rest
  assume "dropWhile (\<lambda>d. d \<noteq> CHR 0x0A) (c # cs) = nl # rest"
  then have "length (nl # rest) \<le> length (c # cs)"
    by (metis length_dropWhile_le)
  then show "(rest, c # cs) \<in> measure length" by simp
qed

text \<open>
  The matches that \<^verbatim>\<open>std::sregex_iterator\<close> enumerates for \<^verbatim>\<open>[a-zA-Z0-9_]+\<close> in the text
  that starts at offset \<open>pos\<close> of the line: the leftmost match, as long as it can be, then
  the matches after it.  Each match is given by \<^verbatim>\<open>match.position(0)\<close> and the matched
  characters.  The program hands these characters to \<^verbatim>\<open>tokenize\<close> as the pointer
  \<^verbatim>\<open>lineStart + tokenPosition\<close> and the \<^verbatim>\<open>int tokenLength\<close>; the model hands over the
  string they denote (for a match of fewer than \<open>2^31\<close> characters, the range of
  \<^verbatim>\<open>tokenLength\<close>).
\<close>

function regex_matches :: "nat \<Rightarrow> string \<Rightarrow> (nat \<times> string) list" where
  "regex_matches pos [] = []"
| "regex_matches pos (c # cs) =
     (if word_char c then
        (pos, takeWhile word_char (c # cs))
          # regex_matches (pos + length (takeWhile word_char (c # cs))) (dropWhile word_char cs)
      else regex_matches (pos + 1) cs)"
  by pat_completeness auto
termination
proof (relation "measure (\<lambda>(pos, s). length s)")
  show "wf (measure (\<lambda>(pos :: nat, s :: string). length s))" by simp
next
  fix pos :: nat and c :: char and cs :: string
  have "length (dropWhile word_char cs) \<le> length cs"
    by (rule length_dropWhile_le)
  then show "((pos + length (takeWhile word_char (c # cs)), dropWhile word_char cs), pos, c # cs)
      \<in> measure (\<lambda>(pos, s). length s)"
    by simp
next
  fix pos :: nat and c :: char and cs :: string
  show "((pos + 1, cs), pos, c # cs) \<in> measure (\<lambda>(pos, s). length s)" by simp
qed

definition sregex_iterator :: "string \<Rightarrow> (nat \<times> string) list" where
  "sregex_iterator ln = regex_matches 0 ln"

text \<open>
  Modelled from the spec: the members of \<^verbatim>\<open>Lexer\<close>, declared in \<^verbatim>\<open>include/Lexer.h\<close>, a
  file that is not among the sources.  They are the four that the constructor
  initialises.  \<open>parsedFile\<close> is the deque the lexer refers to, the spec's token stream
  (it belongs to the caller, who hands it over by reference); \<open>instructions\<close> is the
  instruction set, which the lexer only reads.
\<close>

record Lexer =
  currentLine :: cint
  currentColumn :: cint
  parsedFile :: "Token list"
  instructions :: "string set"

text \<open>
  The \<^verbatim>\<open>for\<close> loop over the matches of one line.  \<^verbatim>\<open>int tokenPosition = match.position(0)\<close>
  narrows the position to an \<^verbatim>\<open>int\<close>, which \<open>word_of_nat\<close> does; the addition of 1 and
  the increment of \<open>currentLine\<close> in \<open>while_body\<close> are those of 32-bit words.
\<close>

fun for_matches :: "Lexer \<Rightarrow> (nat \<times> string) list \<Rightarrow> Lexer" where
  "for_matches lx [] = lx"
| "for_matches lx ((tokenPosition, tokenStr) # ms) =
     (let lx1 = lx\<lparr>currentColumn := word_of_nat tokenPosition + 1\<rparr>;
          tok = tokenize (instructions lx1) tokenStr (currentLine lx1) (currentColumn lx1)
      in for_matches (lx1\<lparr>parsedFile := parsedFile lx1 @ [tok]\<rparr>) ms)"

text \<open>One round of the \<^verbatim>\<open>while\<close> loop, for the line just read.\<close>

definition while_body :: "Lexer \<Rightarrow> string \<Rightarrow> Lexer" where
  "while_body lx ln =
     (let lx1 = for_matches lx (sregex_iterator ln);
          lx2 = lx1\<lparr>parsedFile := parsedFile lx1 @
                  [\<lparr>type = END_OF_LINE, lexeme = [CHR 0x0A],
                    line = currentLine lx1, column = currentColumn lx1\<rparr>]\<rparr>
      in lx2\<lparr>currentLine := currentLine lx2 + 1, currentColumn := 1\<rparr>)"

text \<open>
  The constructor.  Its result is the deque behind \<^verbatim>\<open>parsedFileRef\<close> after the call,
  and either the exception thrown or the lexer constructed.
\<close>

definition Lexer_ctor :: "ifstream \<Rightarrow> Token list \<Rightarrow> string set \<Rightarrow> Token list \<times> (exception + Lexer)" where
  "Lexer_ctor source parsedFileRef instructionsSet =
     (if \<not> is_open source then (parsedFileRef, Inl (runtime_error ''Source file not found!''))
      else (let lx = foldl while_body
                       \<lparr>currentLine = 1, currentColumn = 1,
                        parsedFile = parsedFileRef, instructions = instructionsSet\<rparr>
                       (getlines (content source))
            in (parsedFile lx, Inr lx)))"

section \<open>Consuming the tokens\<close>

definition hasMoreTokens :: "Lexer \<Rightarrow> bool" where
  "hasMoreTokens lx \<longleftrightarrow> \<not> (parsedFile lx = [])"

text \<open>\<^verbatim>\<open>peekNextToken\<close> is \<^verbatim>\<open>const\<close>: it returns a result and leaves the lexer as it is.\<close>

definition peekNextToken :: "Lexer \<Rightarrow> exception + Token" where
  "peekNextToken lx =
     (case parsedFile lx of
        [] \<Rightarrow> Inl (out_of_range ''No tokens available to peek.'')
      | front # rest \<Rightarrow> Inr front)"

text \<open>\<^verbatim>\<open>getNextToken\<close>: the lexer after the call, and the exception or the token returned.\<close>

definition getNextToken :: "Lexer \<Rightarrow> Lexer \<times> (exception + Token)" where
  "getNextToken lx =
     (case parsedFile lx of
        [] \<Rightarrow> (lx, Inl (out_of_range ''No tokens available.''))
      | front # rest \<Rightarrow> (lx\<lparr>parsedFile := rest\<rparr>, Inr front))"

section \<open>Notions of the specification\<close>

text \<open>
  The digits of a register name read as a decimal number, from left to right, without
  the early exit of \<open>register_loop\<close>.
\<close>

definition decimal_value :: "string \<Rightarrow> int" where
  "decimal_value ds = foldl (\<lambda>v c. v * 10 + (int (of_char c) - 48)) 0 ds"

text \<open>
  The offsets (from 0) at which a maximal run of word characters starts in a line: a
  word character that is the first of the line or follows a character that is none.
\<close>

definition run_starts :: "string \<Rightarrow> nat list" where
  "run_starts ln =
     filter (\<lambda>i. word_char (ln ! i) \<and> (i = 0 \<or> \<not> word_char (ln ! (i - 1)))) [0..<length ln]"

text \<open>
  The tokens that the round of the \<^verbatim>\<open>while\<close> loop for line number \<open>n\<close> (from 1) appends
  to the deque: \<open>while_body\<close> run on an empty deque, in the state in which every round
  starts (\<open>foldl_while_body\<close> below).
\<close>

definition line_output :: "string set \<Rightarrow> nat \<Rightarrow> string \<Rightarrow> Token list" where
  "line_output instructionsSet n ln =
     parsedFile (while_body \<lparr>currentLine = word_of_nat n, currentColumn = 1,
                             parsedFile = [], instructions = instructionsSet\<rparr> ln)"

text \<open>
  The same offsets for a text whose preceding character was (\<open>prev\<close>) or was not a
  word character; it serves the proofs about \<open>run_starts\<close>.
\<close>

definition run_starts_after :: "bool \<Rightarrow> string \<Rightarrow> nat list" where
  "run_starts_after prev ln =
     filter (\<lambda>i. word_char (ln ! i) \<and> (if i = 0 then \<not> prev else \<not> word_char (ln ! (i - 1))))
       [0..<length ln]"

section \<open>Character classes, spelled out\<close>

lemma char_eqI: "(of_char c :: nat) = of_char d \<Longrightarrow> c = d"
  by simp

lemma isdigit_chars: "isdigit c \<longleftrightarrow> c \<in> set ''0123456789''"
proof
  assume "isdigit c"
  then have "48 \<le> (of_char c :: nat)" "(of_char c :: nat) \<le> 57"
    by (simp_all add: isdigit_def)
  then have "(of_char c :: nat) \<in> {48, 49, 50, 51, 52, 53, 54, 55, 56, 57}"
    by simp arith
  then show "c \<in> set ''0123456789''"
    by (auto intro: char_eqI)
next
  assume "c \<in> set ''0123456789''"
  then show "isdigit c" by (auto simp: isdigit_def)
qed

lemma isxdigit_chars: "isxdigit c \<longleftrightarrow> c \<in> set ''0123456789abcdefABCDEF''"
proof
  assume "isxdigit c"
  then consider "isdigit c" | "97 \<le> (of_char c :: nat)" "(of_char c :: nat) \<le> 102"
    | "65 \<le> (of_char c :: nat)" "(of_char c :: nat) \<le> 70"
    unfolding isxdigit_def by auto
  then show "c \<in> set ''0123456789abcdefABCDEF''"
  proof cases
    case 1
    then show ?thesis by (auto simp: isdigit_chars)
  next
    case 2
    then have "(of_char c :: nat) \<in> {97, 98, 99, 100, 101, 102}" by auto
    then show ?thesis by (auto intro: char_eqI)
  next
    case 3
    then have "(of_char c :: nat) \<in> {65, 66, 67, 68, 69, 70}" by auto
    then show ?thesis by (auto intro: char_eqI)
  qed
next
  assume "c \<in> set ''0123456789abcdefABCDEF''"
  then show "isxdigit c" by (auto simp: isxdigit_def isdigit_def)
qed

lemma bin_digit_chars: "bin_digit c \<longleftrightarrow> c \<in> set ''01''"
  by (auto simp: bin_digit_def)

lemma word_char_not_colon: "word_char c \<Longrightarrow> c \<noteq> CHR '':''"
  by (auto simp: word_char_def)

section \<open>The register loop\<close>

lemma isdigit_value: "isdigit c \<Longrightarrow> 0 \<le> int (of_char c) - 48"
  by (simp add: isdigit_def)

lemma foldl_digits_mono:
  "list_all isdigit cs \<Longrightarrow> 0 \<le> v \<Longrightarrow> v \<le> foldl (\<lambda>v c. v * 10 + (int (of_char c) - 48)) v cs"
proof (induction cs arbitrary: v)
  case Nil
  then show ?case by simp
next
  case (Cons c cs)
  from Cons.prems have r: "list_all isdigit cs" and "isdigit c" by simp_all
  then have d: "0 \<le> int (of_char c) - 48" by (rule_tac isdigit_value)
  have "v \<le> v * 10 + (int (of_char c) - 48)" using d Cons.prems(2) by simp
  moreover have "v * 10 + (int (of_char c) - 48)
      \<le> foldl (\<lambda>v c. v * 10 + (int (of_char c) - 48)) (v * 10 + (int (of_char c) - 48)) cs"
    using Cons.IH [OF r, of "v * 10 + (int (of_char c) - 48)"] d Cons.prems(2) by simp
  ultimately show ?case by simp
qed

text \<open>The early exit changes nothing: the running value only grows.\<close>

lemma register_loop_iff:
  "0 \<le> v \<Longrightarrow> v \<le> 31 \<Longrightarrow> register_loop v cs \<longleftrightarrow>
     list_all isdigit cs \<and> foldl (\<lambda>v c. v * 10 + (int (of_char c) - 48)) v cs \<le> 31"
proof (induction cs arbitrary: v)
  case Nil
  then show ?case by simp
next
  case (Cons c cs)
  show ?case
  proof (cases "isdigit c")
    case False
    then show ?thesis by simp
  next
    case True
    let ?v = "v * 10 + (int (of_char c) - 48)"
    have nn: "0 \<le> ?v" using Cons.prems(1) isdigit_value [OF True] by simp
    show ?thesis
    proof (cases "?v > 31")
      case big: True
      have "list_all isdigit cs \<Longrightarrow> ?v \<le> foldl (\<lambda>v c. v * 10 + (int (of_char c) - 48)) ?v cs"
        using foldl_digits_mono nn by blast
      with big True show ?thesis by (auto simp: Let_def)
    next
      case False
      then have "?v \<le> 31" by simp
      from Cons.IH [OF nn this] True False show ?thesis by (simp add: Let_def)
    qed
  qed
qed


section \<open>Facts about \<open>tokenize\<close>\<close>

lemma type_tokenize: "type (tokenize ins str ln col) = token_type ins str"
  by (simp add: tokenize_def)

lemma hd_nth0: "str \<noteq> [] \<Longrightarrow> str ! 0 = hd str"
  by (cases str) simp_all

lemma register_iff:
  assumes "str \<notin> ins"
  shows "token_type ins str = REGISTER \<longleftrightarrow>
      2 \<le> length str \<and> hd str = CHR ''x'' \<and> list_all isdigit (tl str) \<and> decimal_value (tl str) \<le> 31"
proof (cases "2 \<le> length str \<and> str ! 0 = CHR ''x''")
  case True
  then have hd: "hd str = CHR ''x''" by (cases str) auto
  have "first_type ins str = (if register_loop 0 (drop 1 str) then REGISTER else ERROR)"
    using assms True by (simp add: first_type_def)
  then have "token_type ins str = REGISTER \<longleftrightarrow> register_loop 0 (drop 1 str)"
    by (auto simp: token_type_def Let_def)
  also have "\<dots> \<longleftrightarrow> list_all isdigit (tl str) \<and> decimal_value (tl str) \<le> 31"
    by (simp add: register_loop_iff decimal_value_def drop_Suc)
  finally show ?thesis using True hd by simp
next
  case False
  then have nx: "\<not> (2 \<le> length str \<and> hd str = CHR ''x'')" by (cases str) auto
  have "first_type ins str \<noteq> REGISTER"
    using assms False by (simp add: first_type_def)
  then have "token_type ins str \<noteq> REGISTER"
    by (auto simp: token_type_def Let_def)
  with nx show ?thesis by blast
qed

lemma decimal_value_nonneg: "list_all isdigit ds \<Longrightarrow> 0 \<le> decimal_value ds"
  unfolding decimal_value_def by (rule foldl_digits_mono) simp_all

lemma immediate_iff:
  assumes "str \<notin> ins" and "\<not> (2 \<le> length str \<and> hd str = CHR ''x'')" and "str \<noteq> []"
  shows "token_type ins str = IMMEDIATE \<longleftrightarrow>
     (if 2 < length str \<and> take 2 str = ''0b'' then list_all bin_digit (drop 2 str)
      else if 2 < length str \<and> take 2 str = ''0x'' then list_all isxdigit (drop 2 str)
      else list_all isdigit str)"
proof -
  have nx: "\<not> (2 \<le> length str \<and> str ! 0 = CHR ''x'')"
    using assms(2,3) by (simp add: hd_nth0)
  have pre: "2 < length str \<Longrightarrow> take 2 str = [a, b] \<longleftrightarrow> str ! 0 = a \<and> str ! 1 = b" for a b
    by (cases str; cases "tl str") auto
  have "first_type ins str = IMMEDIATE \<longleftrightarrow>
     (if 2 < length str \<and> take 2 str = ''0b'' then list_all bin_digit (drop 2 str)
      else if 2 < length str \<and> take 2 str = ''0x'' then list_all isxdigit (drop 2 str)
      else list_all isdigit str)"
    using assms(1,3) nx by (auto simp: first_type_def pre)
  moreover have "token_type ins str = IMMEDIATE \<longleftrightarrow> first_type ins str = IMMEDIATE"
    by (auto simp: token_type_def Let_def)
  ultimately show ?thesis by simp
qed

lemma instruction_iff: "token_type ins str = INSTRUCTION \<longleftrightarrow> str \<in> ins"
  by (auto simp: token_type_def first_type_def Let_def)

section \<open>Classification claims\<close>

text \<open>
  C2. A lexeme that is not in the instruction set is classified \<open>REGISTER\<close> exactly if
  it has at least two characters, the first is \<^verbatim>\<open>x\<close>, the others are decimal digits,
  and the digits read as a decimal number give a value from 0 to 31.  The early exit of
  the loop does not change the outcome.  So \<^verbatim>\<open>x0\<close> to \<^verbatim>\<open>x31\<close> are registers, and
  \<^verbatim>\<open>x01\<close> with its leading zero; \<^verbatim>\<open>x32\<close> and a lone \<^verbatim>\<open>x\<close> are errors.
\<close>

theorem register_classification:
  "(str \<notin> ins \<longrightarrow>
      (type (tokenize ins str ln col) = REGISTER \<longleftrightarrow>
         2 \<le> length str \<and> hd str = CHR ''x'' \<and> set (tl str) \<subseteq> set ''0123456789''
         \<and> 0 \<le> decimal_value (tl str) \<and> decimal_value (tl str) \<le> 31))
   \<and> (\<forall>s \<in> set [''x0'', ''x1'', ''x2'', ''x3'', ''x4'', ''x5'', ''x6'', ''x7'', ''x8'', ''x9'',
         ''x10'', ''x11'', ''x12'', ''x13'', ''x14'', ''x15'', ''x16'', ''x17'', ''x18'', ''x19'',
         ''x20'', ''x21'', ''x22'', ''x23'', ''x24'', ''x25'', ''x26'', ''x27'', ''x28'', ''x29'',
         ''x30'', ''x31'', ''x01''].
         s \<notin> ins \<longrightarrow> type (tokenize ins s ln col) = REGISTER)
   \<and> (''x32'' \<notin> ins \<longrightarrow> type (tokenize ins ''x32'' ln col) = ERROR)
   \<and> (''x'' \<notin> ins \<longrightarrow> type (tokenize ins ''x'' ln col) = ERROR)"
proof (intro conjI impI)
  assume "str \<notin> ins"
  then have "token_type ins str = REGISTER \<longleftrightarrow>
      2 \<le> length str \<and> hd str = CHR ''x'' \<and> list_all isdigit (tl str) \<and> decimal_value (tl str) \<le> 31"
    by (rule register_iff)
  moreover have "list_all isdigit (tl str) \<longleftrightarrow> set (tl str) \<subseteq> set ''0123456789''"
    unfolding list_all_iff isdigit_chars by blast
  ultimately show "type (tokenize ins str ln col) = REGISTER \<longleftrightarrow>
         2 \<le> length str \<and> hd str = CHR ''x'' \<and> set (tl str) \<subseteq> set ''0123456789''
         \<and> 0 \<le> decimal_value (tl str) \<and> decimal_value (tl str) \<le> 31"
    using decimal_value_nonneg [of "tl str"] unfolding type_tokenize by blast
next
  show "\<forall>s \<in> set [''x0'', ''x1'', ''x2'', ''x3'', ''x4'', ''x5'', ''x6'', ''x7'', ''x8'', ''x9'',
         ''x10'', ''x11'', ''x12'', ''x13'', ''x14'', ''x15'', ''x16'', ''x17'', ''x18'', ''x19'',
         ''x20'', ''x21'', ''x22'', ''x23'', ''x24'', ''x25'', ''x26'', ''x27'', ''x28'', ''x29'',
         ''x30'', ''x31'', ''x01''].
         s \<notin> ins \<longrightarrow> type (tokenize ins s ln col) = REGISTER"
    by (simp add: type_tokenize register_iff decimal_value_def isdigit_def)
next
  assume "''x32'' \<notin> ins"
  then show "type (tokenize ins ''x32'' ln col) = ERROR"
    by (simp add: type_tokenize token_type_def first_type_def isdigit_def)
next
  assume "''x'' \<notin> ins"
  then show "type (tokenize ins ''x'' ln col) = ERROR"
    by (simp add: type_tokenize token_type_def first_type_def isdigit_def)
qed

text \<open>The claim at a two-mnemonic instruction set: \<^verbatim>\<open>x17\<close> is a register, \<^verbatim>\<open>x45\<close> is not.\<close>

theorem register_classification_witness:
  "type (tokenize {''add'', ''lw''} ''x17'' 3 5) = REGISTER
   \<and> type (tokenize {''add'', ''lw''} ''x45'' 3 5) \<noteq> REGISTER
   \<and> type (tokenize {''add'', ''lw''} ''x31'' 3 5) = REGISTER
   \<and> type (tokenize {''add'', ''lw''} ''x32'' 3 5) = ERROR
   \<and> type (tokenize {''add'', ''lw''} ''x'' 3 5) = ERROR"
  using register_classification [of "''x17''" "{''add'', ''lw''}" 3 5]
    register_classification [of "''x45''" "{''add'', ''lw''}" 3 5]
  by (simp add: decimal_value_def)

text \<open>
  C3. A lexeme that reaches the immediate rule (not an instruction, not sent to the
  register rule, not empty) is tried as binary if it is longer than two characters and
  starts with \<^verbatim>\<open>0b\<close>, else as hexadecimal if it is longer than two characters and starts
  with \<^verbatim>\<open>0x\<close>, else as decimal; once a prefix has matched, the decimal rule is not
  tried.  \<^verbatim>\<open>0b101\<close>, \<^verbatim>\<open>0xFF\<close>, \<^verbatim>\<open>42\<close> and \<^verbatim>\<open>007\<close> are immediates; \<^verbatim>\<open>0b102\<close>,
  \<^verbatim>\<open>0xFG\<close>, \<^verbatim>\<open>0b\<close> and \<^verbatim>\<open>0x\<close> are errors.
\<close>

theorem immediate_classification:
  "(str \<notin> ins \<and> \<not> (2 \<le> length str \<and> hd str = CHR ''x'') \<and> str \<noteq> [] \<longrightarrow>
      (type (tokenize ins str ln col) = IMMEDIATE \<longleftrightarrow>
         (if 2 < length str \<and> take 2 str = ''0b'' then set (drop 2 str) \<subseteq> set ''01''
          else if 2 < length str \<and> take 2 str = ''0x''
            then set (drop 2 str) \<subseteq> set ''0123456789abcdefABCDEF''
          else set str \<subseteq> set ''0123456789'')))
   \<and> (\<forall>s \<in> set [''0b101'', ''0xFF'', ''42'', ''007''].
         s \<notin> ins \<longrightarrow> type (tokenize ins s ln col) = IMMEDIATE)
   \<and> (\<forall>s \<in> set [''0b102'', ''0xFG'', ''0b'', ''0x''].
         s \<notin> ins \<longrightarrow> type (tokenize ins s ln col) = ERROR)"
proof (intro conjI impI)
  assume a: "str \<notin> ins \<and> \<not> (2 \<le> length str \<and> hd str = CHR ''x'') \<and> str \<noteq> []"
  have 1: "list_all bin_digit cs \<longleftrightarrow> set cs \<subseteq> set ''01''" for cs
    unfolding list_all_iff bin_digit_chars by blast
  have 2: "list_all isxdigit cs \<longleftrightarrow> set cs \<subseteq> set ''0123456789abcdefABCDEF''" for cs
    unfolding list_all_iff isxdigit_chars by blast
  have 3: "list_all isdigit cs \<longleftrightarrow> set cs \<subseteq> set ''0123456789''" for cs
    unfolding list_all_iff isdigit_chars by blast
  from a have "token_type ins str = IMMEDIATE \<longleftrightarrow>
     (if 2 < length str \<and> take 2 str = ''0b'' then list_all bin_digit (drop 2 str)
      else if 2 < length str \<and> take 2 str = ''0x'' then list_all isxdigit (drop 2 str)
      else list_all isdigit str)"
    by (intro immediate_iff) simp_all
  then show "type (tokenize ins str ln col) = IMMEDIATE \<longleftrightarrow>
         (if 2 < length str \<and> take 2 str = ''0b'' then set (drop 2 str) \<subseteq> set ''01''
          else if 2 < length str \<and> take 2 str = ''0x''
            then set (drop 2 str) \<subseteq> set ''0123456789abcdefABCDEF''
          else set str \<subseteq> set ''0123456789'')"
    unfolding type_tokenize 1 2 3 .
next
  show "\<forall>s \<in> set [''0b101'', ''0xFF'', ''42'', ''007''].
         s \<notin> ins \<longrightarrow> type (tokenize ins s ln col) = IMMEDIATE"
    by (simp add: type_tokenize token_type_def first_type_def isdigit_def isxdigit_def bin_digit_def)
next
  show "\<forall>s \<in> set [''0b102'', ''0xFG'', ''0b'', ''0x''].
         s \<notin> ins \<longrightarrow> type (tokenize ins s ln col) = ERROR"
    by (simp add: type_tokenize token_type_def first_type_def isdigit_def isxdigit_def bin_digit_def)
qed

text \<open>The three sub-rules at concrete lexemes, with their failures.\<close>

theorem immediate_classification_witness:
  "type (tokenize {''add''} ''0b1101'' 1 1) = IMMEDIATE
   \<and> type (tokenize {''add''} ''0b1201'' 1 1) \<noteq> IMMEDIATE
   \<and> type (tokenize {''add''} ''0x1fA'' 1 1) = IMMEDIATE
   \<and> type (tokenize {''add''} ''0x1g'' 1 1) \<noteq> IMMEDIATE
   \<and> type (tokenize {''add''} ''1234'' 1 1) = IMMEDIATE
   \<and> type (tokenize {''add''} ''0b101'' 1 1) = IMMEDIATE
   \<and> type (tokenize {''add''} ''0b102'' 1 1) = ERROR
   \<and> type (tokenize {''add''} ''0x'' 1 1) = ERROR"
  using immediate_classification [of "''0b1101''" "{''add''}" 1 1]
    immediate_classification [of "''0b1201''" "{''add''}" 1 1]
    immediate_classification [of "''0x1fA''" "{''add''}" 1 1]
    immediate_classification [of "''0x1g''" "{''add''}" 1 1]
    immediate_classification [of "''1234''" "{''add''}" 1 1]
  by simp

text \<open>
  C4. A lexeme is classified \<open>INSTRUCTION\<close> exactly if it is a member of the instruction
  set, whatever else it looks like: \<^verbatim>\<open>x5\<close> is an instruction when the set contains it
  and a register when it does not.
\<close>

theorem instruction_precedence:
  "(type (tokenize ins str ln col) = INSTRUCTION \<longleftrightarrow> str \<in> ins)
   \<and> (''x5'' \<in> ins \<longrightarrow> type (tokenize ins ''x5'' ln col) = INSTRUCTION)
   \<and> (''x5'' \<notin> ins \<longrightarrow> type (tokenize ins ''x5'' ln col) = REGISTER)"
  by (simp add: type_tokenize instruction_iff register_iff decimal_value_def isdigit_def)

text \<open>Membership is exact: \<^verbatim>\<open>ADD\<close> is no instruction when the set holds \<^verbatim>\<open>add\<close>.\<close>

theorem instruction_precedence_witness:
  "type (tokenize {''add'', ''x5''} ''x5'' 1 1) = INSTRUCTION
   \<and> type (tokenize {''add''} ''x5'' 1 1) = REGISTER
   \<and> type (tokenize {''add''} ''ADD'' 1 1) \<noteq> INSTRUCTION
   \<and> type (tokenize {''add''} ''add'' 1 1) = INSTRUCTION"
  using instruction_precedence [of "{''add'', ''x5''}" "''x5''" 1 1]
    instruction_precedence [of "{''add''}" "''ADD''" 1 1]
    instruction_precedence [of "{''add''}" "''add''" 1 1]
  by simp

section \<open>Consumption claims\<close>

text \<open>
  C8. \<open>peekNextToken\<close> and \<open>getNextToken\<close> each throw \<^verbatim>\<open>std::out_of_range\<close> exactly
  if the deque is empty, and then the lexer is as it was.  If a token is left,
  \<open>peekNextToken\<close> returns the front token (it changes nothing), and \<open>getNextToken\<close>
  returns the front token and removes it from the deque.
\<close>

theorem peek_pop_empty_stream:
  "(isl (peekNextToken lx) \<longleftrightarrow> parsedFile lx = [])
   \<and> (isl (snd (getNextToken lx)) \<longleftrightarrow> parsedFile lx = [])
   \<and> (hasMoreTokens lx \<longleftrightarrow> parsedFile lx \<noteq> [])
   \<and> (parsedFile lx = [] \<longrightarrow>
        peekNextToken lx = Inl (out_of_range ''No tokens available to peek.'')
        \<and> getNextToken lx = (lx, Inl (out_of_range ''No tokens available.'')))
   \<and> (\<forall>front rest. parsedFile lx = front # rest \<longrightarrow>
        peekNextToken lx = Inr front
        \<and> getNextToken lx = (lx\<lparr>parsedFile := rest\<rparr>, Inr front))"
  by (cases "parsedFile lx") (simp_all add: peekNextToken_def getNextToken_def hasMoreTokens_def)

text \<open>Both calls on an empty deque and on a deque of two tokens.\<close>

theorem peek_pop_empty_stream_witness:
  "peekNextToken \<lparr>currentLine = 2, currentColumn = 1, parsedFile = [], instructions = {''add''}\<rparr>
     = Inl (out_of_range ''No tokens available to peek.'')
   \<and> getNextToken \<lparr>currentLine = 2, currentColumn = 1, parsedFile = [], instructions = {''add''}\<rparr>
     = (\<lparr>currentLine = 2, currentColumn = 1, parsedFile = [], instructions = {''add''}\<rparr>,
        Inl (out_of_range ''No tokens available.''))
   \<and> peekNextToken \<lparr>currentLine = 2, currentColumn = 1,
        parsedFile = [\<lparr>type = REGISTER, lexeme = ''x1'', line = 1, column = 1\<rparr>,
                      \<lparr>type = END_OF_LINE, lexeme = [CHR 0x0A], line = 1, column = 1\<rparr>],
        instructions = {''add''}\<rparr>
     = Inr \<lparr>type = REGISTER, lexeme = ''x1'', line = 1, column = 1\<rparr>
   \<and> getNextToken \<lparr>currentLine = 2, currentColumn = 1,
        parsedFile = [\<lparr>type = REGISTER, lexeme = ''x1'', line = 1, column = 1\<rparr>,
                      \<lparr>type = END_OF_LINE, lexeme = [CHR 0x0A], line = 1, column = 1\<rparr>],
        instructions = {''add''}\<rparr>
     = (\<lparr>currentLine = 2, currentColumn = 1,
        parsedFile = [\<lparr>type = END_OF_LINE, lexeme = [CHR 0x0A], line = 1, column = 1\<rparr>],
        instructions = {''add''}\<rparr>,
        Inr \<lparr>type = REGISTER, lexeme = ''x1'', line = 1, column = 1\<rparr>)"
  using peek_pop_empty_stream
      [of "\<lparr>currentLine = 2, currentColumn = 1, parsedFile = [], instructions = {''add''}\<rparr>"]
    peek_pop_empty_stream
      [of "\<lparr>currentLine = 2, currentColumn = 1,
        parsedFile = [\<lparr>type = REGISTER, lexeme = ''x1'', line = 1, column = 1\<rparr>,
                      \<lparr>type = END_OF_LINE, lexeme = [CHR 0x0A], line = 1, column = 1\<rparr>],
        instructions = {''add''}\<rparr>"]
  by simp

section \<open>Construction claims\<close>

text \<open>
  C9. If the source is not open, the constructor throws \<^verbatim>\<open>std::runtime_error\<close> and the
  deque it was given is as before: no token has been produced.  It throws in no other
  case.  (That the stream is open is the one condition the constructor tests.)
\<close>

theorem construction_failure:
  "(\<not> is_open source \<longrightarrow>
      Lexer_ctor source parsedFileRef ins
        = (parsedFileRef, Inl (runtime_error ''Source file not found!'')))
   \<and> (isl (snd (Lexer_ctor source parsedFileRef ins)) \<longleftrightarrow> \<not> is_open source)"
  by (simp add: Lexer_ctor_def Let_def)

text \<open>A closed source and a deque that already holds a token.\<close>

theorem construction_failure_witness:
  "Lexer_ctor \<lparr>is_open = False, content = ''add x1 x2 x3''\<rparr>
      [\<lparr>type = REGISTER, lexeme = ''x1'', line = 1, column = 1\<rparr>] {''add''}
     = ([\<lparr>type = REGISTER, lexeme = ''x1'', line = 1, column = 1\<rparr>],
        Inl (runtime_error ''Source file not found!''))"
  using construction_failure [of "\<lparr>is_open = False, content = ''add x1 x2 x3''\<rparr>"
      "[\<lparr>type = REGISTER, lexeme = ''x1'', line = 1, column = 1\<rparr>]" "{''add''}"]
  by simp

section \<open>The scanning loops\<close>

text \<open>What the \<^verbatim>\<open>for\<close> loop leaves behind: one token for each match, in order.\<close>

lemma for_matches_eq:
  "for_matches lx ms =
     lx\<lparr>currentColumn := (if ms = [] then currentColumn lx else word_of_nat (fst (last ms)) + 1),
        parsedFile := parsedFile lx @
          map (\<lambda>(p, s). tokenize (instructions lx) s (currentLine lx) (word_of_nat p + 1)) ms\<rparr>"
proof (induction ms arbitrary: lx)
  case Nil
  then show ?case by simp
next
  case (Cons m ms)
  obtain p s where m: "m = (p, s)" by (cases m)
  show ?case unfolding m by (simp add: Cons.IH Let_def)
qed

lemma line_output_eq:
  "line_output ins n ln =
     map (\<lambda>(p, s). tokenize ins s (word_of_nat n) (word_of_nat p + 1)) (sregex_iterator ln)
     @ [\<lparr>type = END_OF_LINE, lexeme = [CHR 0x0A], line = word_of_nat n,
         column = (if sregex_iterator ln = [] then 1
                   else word_of_nat (fst (last (sregex_iterator ln))) + 1)\<rparr>]"
  by (simp add: line_output_def while_body_def for_matches_eq Let_def)

lemma while_body_eq:
  assumes "currentColumn lx = 1" and "currentLine lx = word_of_nat n"
  shows "while_body lx ln =
     lx\<lparr>currentLine := word_of_nat (Suc n), currentColumn := 1,
        parsedFile := parsedFile lx @ line_output (instructions lx) n ln\<rparr>"
  using assms by (simp add: line_output_eq while_body_def for_matches_eq Let_def)

text \<open>
  Every round starts with the column at 1 and the line number one higher, and appends
  the \<open>line_output\<close> of its line.
\<close>

lemma foldl_while_body:
  assumes "currentColumn lx = 1" and "currentLine lx = word_of_nat n"
  shows "foldl while_body lx lns =
     lx\<lparr>currentLine := word_of_nat (n + length lns), currentColumn := 1,
        parsedFile := parsedFile lx @
          concat (map (\<lambda>k. line_output (instructions lx) (n + k) (lns ! k)) [0..<length lns])\<rparr>"
  using assms
proof (induction lns arbitrary: lx n)
  case Nil
  then show ?case by simp
next
  case (Cons l ls)
  let ?lx = "while_body lx l"
  have wb: "?lx = lx\<lparr>currentLine := word_of_nat (Suc n), currentColumn := 1,
        parsedFile := parsedFile lx @ line_output (instructions lx) n l\<rparr>"
    using Cons.prems by (rule while_body_eq)
  have c: "currentColumn ?lx = 1" and l: "currentLine ?lx = word_of_nat (Suc n)"
    and i: "instructions ?lx = instructions lx"
    and p: "parsedFile ?lx = parsedFile lx @ line_output (instructions lx) n l"
    unfolding wb by simp_all
  have "[0..<Suc (length ls)] = 0 # [Suc 0..<Suc (length ls)]"
    by (rule upt_conv_Cons) simp
  then have upt: "[0..<length (l # ls)] = 0 # map Suc [0..<length ls]"
    by (simp only: map_Suc_upt list.size(4) One_nat_def add_Suc_right add_0_right)
  show ?case
    unfolding foldl_Cons Cons.IH [OF c l] i p upt
    by (simp add: wb comp_def)
qed

lemma Lexer_ctor_eq:
  assumes "is_open source"
  shows "Lexer_ctor source parsedFileRef ins =
    (parsedFileRef @ concat (map (\<lambda>k. line_output ins (Suc k) (getlines (content source) ! k))
                            [0..<length (getlines (content source))]),
     Inr \<lparr>currentLine = word_of_nat (Suc (length (getlines (content source)))),
          currentColumn = 1,
          parsedFile = parsedFileRef @
            concat (map (\<lambda>k. line_output ins (Suc k) (getlines (content source) ! k))
                            [0..<length (getlines (content source))]),
          instructions = ins\<rparr>)"
proof -
  let ?lx = "\<lparr>currentLine = 1, currentColumn = 1, parsedFile = parsedFileRef, instructions = ins\<rparr>"
  have "foldl while_body ?lx (getlines (content source)) =
     ?lx\<lparr>currentLine := word_of_nat (1 + length (getlines (content source))), currentColumn := 1,
        parsedFile := parsedFile ?lx @
          concat (map (\<lambda>k. line_output (instructions ?lx) (1 + k) (getlines (content source) ! k))
             [0..<length (getlines (content source))])\<rparr>"
    by (rule foldl_while_body) simp_all
  then show ?thesis using assms by (simp add: Lexer_ctor_def Let_def)
qed

section \<open>Scanning claims\<close>

text \<open>A match of the regular expression is a non-empty string of word characters.\<close>

lemma regex_matches_word:
  "(p, s) \<in> set (regex_matches pos ln) \<Longrightarrow> s \<noteq> [] \<and> list_all word_char s"
proof (induction pos ln rule: regex_matches.induct)
  case (1 pos)
  then show ?case by simp
next
  case (2 pos c cs)
  show ?case
  proof (cases "word_char c")
    case True
    from "2.prems" True
    consider "(p, s) = (pos, takeWhile word_char (c # cs))"
      | "(p, s) \<in> set (regex_matches (pos + length (takeWhile word_char (c # cs))) (dropWhile word_char cs))"
      by auto
    then show ?thesis
    proof cases
      case 1
      then have "s = c # takeWhile word_char cs" using True by simp
      then show ?thesis using True by (simp add: list_all_iff) (metis set_takeWhileD)
    next
      case 2
      then show ?thesis using "2.IH"(1) [OF True] by blast
    qed
  next
    case False
    with "2.prems" have "(p, s) \<in> set (regex_matches (pos + 1) cs)" by simp
    then show ?thesis using "2.IH"(2) [OF False] by blast
  qed
qed

lemma first_type_not_label: "first_type ins str \<noteq> LABEL"
  by (simp add: first_type_def)

lemma word_run_not_label:
  assumes "s \<noteq> []" and "list_all word_char s"
  shows "token_type ins s \<noteq> LABEL"
proof -
  have "s ! (length s - 1) = last s" using assms(1) by (simp add: last_conv_nth)
  moreover have "word_char (last s)" using assms by (simp add: list_all_iff)
  ultimately have "s ! (length s - 1) \<noteq> CHR '':''" using word_char_not_colon by metis
  then show ?thesis by (simp add: token_type_def Let_def first_type_not_label)
qed

lemma line_output_no_label: "t \<in> set (line_output ins n ln) \<Longrightarrow> type t \<noteq> LABEL"
  unfolding line_output_eq sregex_iterator_def
  by (auto simp: type_tokenize word_run_not_label dest!: regex_matches_word)


lemma Lexer_ctor_output:
  "is_open source \<Longrightarrow> fst (Lexer_ctor source parsedFileRef ins) =
     parsedFileRef @ concat (map (\<lambda>k. line_output ins (Suc k) (getlines (content source) ! k))
                            [0..<length (getlines (content source))])"
  by (simp add: Lexer_ctor_eq)

lemma Lexer_ctor_closed: "\<not> is_open source \<Longrightarrow> fst (Lexer_ctor source parsedFileRef ins) = parsedFileRef"
  by (simp add: Lexer_ctor_def)

text \<open>
  C1. The constructor never appends a token of category \<open>LABEL\<close>: what it leaves in the
  deque is what was there before, followed by tokens that are not labels.  Every lexeme
  the regular expression hands to \<open>tokenize\<close> is a non-empty string of word characters,
  so its last character is not a colon and the label rule cannot apply.  The line
  \<^verbatim>\<open>loop:\<close> gives an \<open>ERROR\<close> token with lexeme \<^verbatim>\<open>loop\<close> (when \<^verbatim>\<open>loop\<close> is no
  instruction), then the end-of-line token.
\<close>

theorem no_label_token:
  "take (length parsedFileRef) (fst (Lexer_ctor source parsedFileRef ins)) = parsedFileRef
   \<and> (\<forall>t \<in> set (drop (length parsedFileRef) (fst (Lexer_ctor source parsedFileRef ins))).
         type t \<noteq> LABEL)
   \<and> (\<forall>(p, s) \<in> set (sregex_iterator ln). s \<noteq> [] \<and> list_all word_char s \<and> last s \<noteq> CHR '':'')
   \<and> (''loop'' \<notin> ins \<longrightarrow>
        fst (Lexer_ctor \<lparr>is_open = True, content = ''loop:''\<rparr> parsedFileRef ins)
          = parsedFileRef @
            [\<lparr>type = ERROR, lexeme = ''loop'', line = 1, column = 1\<rparr>,
             \<lparr>type = END_OF_LINE, lexeme = [CHR 0x0A], line = 1, column = 1\<rparr>])"
proof (intro conjI)
  show "take (length parsedFileRef) (fst (Lexer_ctor source parsedFileRef ins)) = parsedFileRef"
    by (cases "is_open source") (simp_all add: Lexer_ctor_output Lexer_ctor_closed)
next
  show "\<forall>t \<in> set (drop (length parsedFileRef) (fst (Lexer_ctor source parsedFileRef ins))).
         type t \<noteq> LABEL"
    by (cases "is_open source")
      (auto simp: Lexer_ctor_output Lexer_ctor_closed dest: line_output_no_label)
next
  show "\<forall>(p, s) \<in> set (sregex_iterator ln). s \<noteq> [] \<and> list_all word_char s \<and> last s \<noteq> CHR '':''"
  proof (clarify, intro conjI)
    fix p s assume "(p, s) \<in> set (sregex_iterator ln)"
    then have w: "s \<noteq> [] \<and> list_all word_char s"
      unfolding sregex_iterator_def by (rule regex_matches_word)
    then show "s \<noteq> []" and "list_all word_char s" by simp_all
    from w have "word_char (last s)" by (simp add: list_all_iff)
    then show "last s \<noteq> CHR '':''" by (rule word_char_not_colon)
  qed
next
  show "''loop'' \<notin> ins \<longrightarrow>
        fst (Lexer_ctor \<lparr>is_open = True, content = ''loop:''\<rparr> parsedFileRef ins)
          = parsedFileRef @
            [\<lparr>type = ERROR, lexeme = ''loop'', line = 1, column = 1\<rparr>,
             \<lparr>type = END_OF_LINE, lexeme = [CHR 0x0A], line = 1, column = 1\<rparr>]"
    by (simp add: Lexer_ctor_def while_body_def sregex_iterator_def tokenize_def token_type_def
        first_type_def word_char_def isdigit_def)
qed

text \<open>The line \<^verbatim>\<open>loop:\<close> scanned into an empty deque, and the matches of \<^verbatim>\<open>loop: x1\<close>.\<close>

theorem no_label_token_witness:
  "fst (Lexer_ctor \<lparr>is_open = True, content = ''loop:''\<rparr> [] {''add''})
     = [\<lparr>type = ERROR, lexeme = ''loop'', line = 1, column = 1\<rparr>,
        \<lparr>type = END_OF_LINE, lexeme = [CHR 0x0A], line = 1, column = 1\<rparr>]
   \<and> list_all (\<lambda>t. type t \<noteq> LABEL)
         (fst (Lexer_ctor \<lparr>is_open = True, content = ''loop:''\<rparr> [] {''add''}))
   \<and> list_all (\<lambda>(p, s). s \<noteq> [] \<and> last s \<noteq> CHR '':'') (sregex_iterator ''loop: x1'')"
  using no_label_token [of "[]" "\<lparr>is_open = True, content = ''loop:''\<rparr>" "{''add''}" "''loop: x1''"]
  by (simp add: list_all_iff split_def)

text \<open>
  C5. The one-line source \<^verbatim>\<open>add x1 x2 x3\<close>, scanned with an instruction set that
  contains \<^verbatim>\<open>add\<close> (and none of the three register names, which would otherwise be
  instructions), appends exactly five tokens: the instruction at column 1, the
  registers at columns 5, 8 and 11, and the end-of-line token at column 11, all on
  line 1.
\<close>

theorem add_line_scenario:
  "''add'' \<in> ins \<and> ''x1'' \<notin> ins \<and> ''x2'' \<notin> ins \<and> ''x3'' \<notin> ins \<longrightarrow>
     fst (Lexer_ctor \<lparr>is_open = True, content = ''add x1 x2 x3''\<rparr> parsedFileRef ins)
       = parsedFileRef @
         [\<lparr>type = INSTRUCTION, lexeme = ''add'', line = 1, column = 1\<rparr>,
          \<lparr>type = REGISTER, lexeme = ''x1'', line = 1, column = 5\<rparr>,
          \<lparr>type = REGISTER, lexeme = ''x2'', line = 1, column = 8\<rparr>,
          \<lparr>type = REGISTER, lexeme = ''x3'', line = 1, column = 11\<rparr>,
          \<lparr>type = END_OF_LINE, lexeme = [CHR 0x0A], line = 1, column = 11\<rparr>]"
  by (simp add: Lexer_ctor_def while_body_def sregex_iterator_def tokenize_def token_type_def
      first_type_def word_char_def isdigit_def)

text \<open>The scenario with the instruction set \<open>{add}\<close> and an empty deque.\<close>

theorem add_line_scenario_witness:
  "fst (Lexer_ctor \<lparr>is_open = True, content = ''add x1 x2 x3''\<rparr> [] {''add''})
     = [\<lparr>type = INSTRUCTION, lexeme = ''add'', line = 1, column = 1\<rparr>,
        \<lparr>type = REGISTER, lexeme = ''x1'', line = 1, column = 5\<rparr>,
        \<lparr>type = REGISTER, lexeme = ''x2'', line = 1, column = 8\<rparr>,
        \<lparr>type = REGISTER, lexeme = ''x3'', line = 1, column = 11\<rparr>,
        \<lparr>type = END_OF_LINE, lexeme = [CHR 0x0A], line = 1, column = 11\<rparr>]"
  using add_line_scenario [of "{''add''}" "[]"] by simp

section \<open>Matches and maximal runs\<close>

lemma sint_word_of_nat: "n < 2 ^ 31 \<Longrightarrow> sint (word_of_nat n :: 32 word) = int n"
proof -
  assume "n < 2 ^ 31"
  then have "int n < 2 ^ 31" by (metis of_nat_less_iff of_nat_numeral of_nat_power)
  then have "signed_take_bit 31 (int n) = int n"
    by (intro signed_take_bit_int_eq_self) simp_all
  then show ?thesis by (simp add: signed_of_nat)
qed

lemma run_starts_after_False: "run_starts ln = run_starts_after False ln"
  unfolding run_starts_def run_starts_after_def
  by (rule filter_cong) auto

lemma run_starts_after_Nil: "run_starts_after prev [] = []"
  by (simp add: run_starts_after_def)

lemma run_starts_after_Cons:
  "run_starts_after prev (c # cs) =
     (if word_char c \<and> \<not> prev then [0] else []) @ map Suc (run_starts_after (word_char c) cs)"
proof -
  have "[0..<Suc (length cs)] = 0 # [Suc 0..<Suc (length cs)]"
    by (rule upt_conv_Cons) simp
  then have upt: "[0..<length (c # cs)] = 0 # map Suc [0..<length cs]"
    by (simp only: map_Suc_upt list.size(4) One_nat_def add_Suc_right add_0_right)
  have "filter ((\<lambda>i. word_char ((c # cs) ! i) \<and>
            (if i = 0 then \<not> prev else \<not> word_char ((c # cs) ! (i - 1)))) \<circ> Suc) [0..<length cs]
      = filter (\<lambda>i. word_char (cs ! i) \<and>
            (if i = 0 then \<not> word_char c else \<not> word_char (cs ! (i - 1)))) [0..<length cs]"
    by (rule filter_cong) (auto simp: nth_Cons')
  then show ?thesis
    unfolding run_starts_after_def upt by (simp add: filter_map)
qed

lemma run_starts_after_True:
  "run_starts_after True cs =
     map ((+) (length (takeWhile word_char cs))) (run_starts_after False (dropWhile word_char cs))"
proof (induction cs)
  case Nil
  then show ?case by (simp add: run_starts_after_Nil)
next
  case (Cons c cs)
  show ?case
  proof (cases "word_char c")
    case True
    then show ?thesis by (simp add: run_starts_after_Cons Cons.IH)
  next
    case False
    then show ?thesis by (simp add: run_starts_after_Cons)
  qed
qed

lemma run_starts_Cons_other:
  "\<not> word_char c \<Longrightarrow> run_starts (c # cs) = map Suc (run_starts cs)"
  by (simp add: run_starts_after_False run_starts_after_Cons)

lemma run_starts_Cons_word:
  "word_char c \<Longrightarrow> run_starts (c # cs) =
     0 # map ((+) (length (takeWhile word_char (c # cs)))) (run_starts (dropWhile word_char cs))"
  by (simp add: run_starts_after_False run_starts_after_Cons run_starts_after_True)

text \<open>
  The matches of the regular expression are the maximal runs of word characters: they
  start where a run starts, and each is the longest stretch of word characters from
  there.
\<close>

lemma regex_matches_positions:
  "map fst (regex_matches pos ln) = map ((+) pos) (run_starts ln)"
proof (induction pos ln rule: regex_matches.induct)
  case (1 pos)
  then show ?case by (simp add: run_starts_def)
next
  case (2 pos c cs)
  show ?case
  proof (cases "word_char c")
    case True
    show ?thesis
      using "2.IH"(1) [OF True] True
      by (simp add: run_starts_Cons_word del: takeWhile.simps)
  next
    case False
    show ?thesis
      using "2.IH"(2) [OF False] False
      by (simp add: run_starts_Cons_other)
  qed
qed

lemma regex_matches_lexeme:
  "(p, s) \<in> set (regex_matches pos ln) \<Longrightarrow>
     pos \<le> p \<and> s = takeWhile word_char (drop (p - pos) ln)"
proof (induction pos ln rule: regex_matches.induct)
  case (1 pos)
  then show ?case by simp
next
  case (2 pos c cs)
  show ?case
  proof (cases "word_char c")
    case True
    let ?w = "takeWhile word_char (c # cs)"
    from "2.prems" True
    consider "(p, s) = (pos, ?w)"
      | "(p, s) \<in> set (regex_matches (pos + length ?w) (dropWhile word_char cs))"
      by auto
    then show ?thesis
    proof cases
      case 1
      then show ?thesis by simp
    next
      case 2
      then have ih: "pos + length ?w \<le> p"
        "s = takeWhile word_char (drop (p - (pos + length ?w)) (dropWhile word_char cs))"
        using "2.IH"(1) [OF True] by blast+
      have "dropWhile word_char cs = dropWhile word_char (c # cs)" using True by simp
      also have "\<dots> = drop (length ?w) (c # cs)" by (rule dropWhile_eq_drop)
      finally have "drop (p - (pos + length ?w)) (dropWhile word_char cs) = drop (p - pos) (c # cs)"
        using ih(1) by (simp del: takeWhile.simps drop_Suc_Cons)
      with ih show ?thesis by simp
    qed
  next
    case False
    with "2.prems" have "(p, s) \<in> set (regex_matches (pos + 1) cs)" by simp
    then have ih: "pos + 1 \<le> p" "s = takeWhile word_char (drop (p - (pos + 1)) cs)"
      using "2.IH"(2) [OF False] by blast+
    from ih(1) have "p - pos = Suc (p - (pos + 1))" by simp
    then have "drop (p - pos) (c # cs) = drop (p - (pos + 1)) cs"
      by (simp only: drop_Suc_Cons)
    with ih show ?thesis by simp
  qed
qed

lemma run_starts_bound: "i \<in> set (run_starts ln) \<Longrightarrow> i < length ln"
  by (simp add: run_starts_def)

lemma sregex_iterator_positions: "map fst (sregex_iterator ln) = run_starts ln"
proof -
  have "map ((+) 0) (run_starts ln) = run_starts ln" by (rule map_idI) simp
  then show ?thesis by (simp only: sregex_iterator_def regex_matches_positions)
qed

lemma sregex_iterator_length: "length (sregex_iterator ln) = length (run_starts ln)"
  by (metis sregex_iterator_positions length_map)

lemma sregex_iterator_nth:
  assumes "j < length (run_starts ln)"
  shows "sregex_iterator ln ! j =
     (run_starts ln ! j, takeWhile word_char (drop (run_starts ln ! j) ln))"
proof -
  obtain p s where ps: "sregex_iterator ln ! j = (p, s)" by (cases "sregex_iterator ln ! j")
  have j: "j < length (sregex_iterator ln)" using assms by (simp add: sregex_iterator_length)
  then have "map fst (sregex_iterator ln) ! j = p" using ps by simp
  then have p: "p = run_starts ln ! j" by (simp add: sregex_iterator_positions)
  have "(p, s) \<in> set (regex_matches 0 ln)"
    using j ps unfolding sregex_iterator_def by (metis nth_mem)
  then have "s = takeWhile word_char (drop (p - 0) ln)"
    using regex_matches_lexeme by blast
  with p ps show ?thesis by simp
qed

lemma sregex_iterator_last:
  "run_starts ln \<noteq> [] \<Longrightarrow> fst (last (sregex_iterator ln)) = last (run_starts ln)"
  by (metis sregex_iterator_positions last_map map_is_Nil_conv)

lemma sregex_iterator_Nil: "sregex_iterator ln = [] \<longleftrightarrow> run_starts ln = []"
  by (metis sregex_iterator_positions map_is_Nil_conv)

lemma token_type_not_eol: "token_type ins str \<noteq> END_OF_LINE"
  by (simp add: token_type_def Let_def first_type_def)

section \<open>The tokens of one line\<close>

lemma line_output_length: "length (line_output ins n ln) = Suc (length (run_starts ln))"
  by (simp add: line_output_eq sregex_iterator_length)

lemma line_output_nth:
  assumes "j < length (run_starts ln)"
  shows "line_output ins n ln ! j =
     tokenize ins (takeWhile word_char (drop (run_starts ln ! j) ln))
       (word_of_nat n) (word_of_nat (run_starts ln ! j) + 1)"
proof -
  have j: "j < length (sregex_iterator ln)" using assms by (simp add: sregex_iterator_length)
  then have "line_output ins n ln ! j =
      (\<lambda>(p, s). tokenize ins s (word_of_nat n) (word_of_nat p + 1)) (sregex_iterator ln ! j)"
    by (simp add: line_output_eq nth_append)
  then show ?thesis by (simp add: sregex_iterator_nth [OF assms])
qed

lemma line_output_last:
  "last (line_output ins n ln) =
     \<lparr>type = END_OF_LINE, lexeme = [CHR 0x0A], line = word_of_nat n,
      column = (if run_starts ln = [] then 1 else word_of_nat (last (run_starts ln)) + 1)\<rparr>"
  by (simp add: line_output_eq sregex_iterator_Nil sregex_iterator_last)

lemma line_output_butlast:
  "butlast (line_output ins n ln) =
     map (\<lambda>(p, s). tokenize ins s (word_of_nat n) (word_of_nat p + 1)) (sregex_iterator ln)"
  by (simp add: line_output_eq butlast_append)

lemma line_output_butlast_type:
  "t \<in> set (butlast (line_output ins n ln)) \<Longrightarrow> type t \<noteq> END_OF_LINE"
  by (auto simp: line_output_butlast type_tokenize token_type_not_eol)

lemma line_output_butlast_column:
  assumes "run_starts ln \<noteq> []"
  shows "column (last (butlast (line_output ins n ln))) = word_of_nat (last (run_starts ln)) + 1"
proof -
  have ne: "sregex_iterator ln \<noteq> []" using assms by (simp add: sregex_iterator_Nil)
  obtain p s where ps: "last (sregex_iterator ln) = (p, s)" by (cases "last (sregex_iterator ln)")
  then have "p = last (run_starts ln)" using sregex_iterator_last [OF assms] by simp
  then show ?thesis using ne ps by (simp add: line_output_butlast last_map tokenize_def)
qed

lemma line_output_line: "t \<in> set (line_output ins n ln) \<Longrightarrow> line t = word_of_nat n"
  by (auto simp: line_output_eq tokenize_def)

lemma run_starts_after_empty:
  "run_starts_after False ln = [] \<Longrightarrow> \<forall>c \<in> set ln. \<not> word_char c"
proof (induction ln)
  case Nil
  then show ?case by simp
next
  case (Cons c cs)
  from Cons.prems have nc: "\<not> word_char c"
    by (simp add: run_starts_after_Cons split: if_splits)
  with Cons.prems have "run_starts_after False cs = []"
    by (simp add: run_starts_after_Cons)
  then show ?case using Cons.IH nc by simp
qed

lemma no_word_char_no_run: "(\<forall>c \<in> set ln. \<not> word_char c) \<longleftrightarrow> run_starts ln = []"
proof
  assume "\<forall>c \<in> set ln. \<not> word_char c"
  then show "run_starts ln = []" by (simp add: run_starts_def)
next
  assume "run_starts ln = []"
  then show "\<forall>c \<in> set ln. \<not> word_char c"
    by (intro run_starts_after_empty) (simp add: run_starts_after_False)
qed

section \<open>End-of-line claims\<close>

lemma while_body_column:
  "column (last (parsedFile (while_body lx ln))) = currentColumn (for_matches lx (sregex_iterator ln))"
  by (simp add: while_body_def Let_def)

lemma while_body_resets: "currentColumn (while_body lx ln) = 1"
  by (simp add: while_body_def Let_def)

text \<open>
  C6. The constructor appends, line by line, the \<open>line_output\<close> of each source line.
  That output is never empty: its last token is the one \<open>END_OF_LINE\<close> token, and the
  tokens before it are not of that category.  The column of the \<open>END_OF_LINE\<close> token
  is the column of the token before it, and 1 if there is none.  It is not computed at
  the end of the line: it is the value of \<open>currentColumn\<close> when the \<^verbatim>\<open>for\<close> loop is
  left, which is the start of the last run (from 1) if the line has a run and the value
  the round started with if it has none.
\<close>

theorem end_of_line_token:
  "(is_open source \<longrightarrow>
      fst (Lexer_ctor source parsedFileRef ins) =
        parsedFileRef @ concat (map (\<lambda>k. line_output ins (Suc k) (getlines (content source) ! k))
                                  [0..<length (getlines (content source))]))
   \<and> line_output ins n ln \<noteq> []
   \<and> type (last (line_output ins n ln)) = END_OF_LINE
   \<and> (\<forall>t \<in> set (butlast (line_output ins n ln)). type t \<noteq> END_OF_LINE)
   \<and> column (last (line_output ins n ln)) =
        (if butlast (line_output ins n ln) = [] then 1
         else column (last (butlast (line_output ins n ln))))
   \<and> column (last (parsedFile (while_body lx ln))) =
        currentColumn (for_matches lx (sregex_iterator ln))
   \<and> (run_starts ln = [] \<longrightarrow>
        currentColumn (for_matches lx (sregex_iterator ln)) = currentColumn lx)
   \<and> (run_starts ln \<noteq> [] \<longrightarrow>
        currentColumn (for_matches lx (sregex_iterator ln)) = word_of_nat (last (run_starts ln)) + 1)"
proof (intro conjI impI ballI)
  assume "is_open source"
  then show "fst (Lexer_ctor source parsedFileRef ins) =
        parsedFileRef @ concat (map (\<lambda>k. line_output ins (Suc k) (getlines (content source) ! k))
                                  [0..<length (getlines (content source))])"
    by (rule Lexer_ctor_output)
next
  show "line_output ins n ln \<noteq> []" by (simp add: line_output_eq)
next
  show "type (last (line_output ins n ln)) = END_OF_LINE" by (simp add: line_output_last)
next
  fix t assume "t \<in> set (butlast (line_output ins n ln))"
  then show "type t \<noteq> END_OF_LINE" by (rule line_output_butlast_type)
next
  have e: "butlast (line_output ins n ln) = [] \<longleftrightarrow> run_starts ln = []"
    by (simp add: line_output_butlast sregex_iterator_Nil)
  show "column (last (line_output ins n ln)) =
        (if butlast (line_output ins n ln) = [] then 1
         else column (last (butlast (line_output ins n ln))))"
    unfolding e by (simp add: line_output_last line_output_butlast_column)
next
  show "column (last (parsedFile (while_body lx ln))) =
        currentColumn (for_matches lx (sregex_iterator ln))"
    by (rule while_body_column)
next
  assume "run_starts ln = []"
  then show "currentColumn (for_matches lx (sregex_iterator ln)) = currentColumn lx"
    by (simp add: for_matches_eq sregex_iterator_Nil)
next
  assume "run_starts ln \<noteq> []"
  then show "currentColumn (for_matches lx (sregex_iterator ln)) = word_of_nat (last (run_starts ln)) + 1"
    by (simp add: for_matches_eq sregex_iterator_Nil sregex_iterator_last)
qed

text \<open>
  Two lines, \<^verbatim>\<open>lw x1,\<close> and one of separators only: the first ends with column 4, where
  \<^verbatim>\<open>x1\<close> starts, the second with column 1.
\<close>

theorem end_of_line_token_witness:
  "fst (Lexer_ctor \<lparr>is_open = True, content = ''lw x1,'' @ [CHR 0x0A] @ '' : ''\<rparr> [] {''lw''})
     = line_output {''lw''} (Suc 0) ''lw x1,'' @ line_output {''lw''} (Suc (Suc 0)) '' : ''
   \<and> type (last (line_output {''lw''} (Suc 0) ''lw x1,'')) = END_OF_LINE
   \<and> list_all (\<lambda>t. type t \<noteq> END_OF_LINE) (butlast (line_output {''lw''} (Suc 0) ''lw x1,''))
   \<and> column (last (parsedFile (while_body
         \<lparr>currentLine = 1, currentColumn = 1, parsedFile = [], instructions = {''lw''}\<rparr> ''lw x1,''))) = 4
   \<and> column (last (parsedFile (while_body
         \<lparr>currentLine = 2, currentColumn = 1, parsedFile = [], instructions = {''lw''}\<rparr> '' : ''))) = 1"
proof -
  have first_line:
    "fst (Lexer_ctor \<lparr>is_open = True, content = ''lw x1,'' @ [CHR 0x0A] @ '' : ''\<rparr> [] {''lw''})
       = line_output {''lw''} (Suc 0) ''lw x1,'' @ line_output {''lw''} (Suc (Suc 0)) '' : ''
     \<and> type (last (line_output {''lw''} (Suc 0) ''lw x1,'')) = END_OF_LINE
     \<and> list_all (\<lambda>t. type t \<noteq> END_OF_LINE) (butlast (line_output {''lw''} (Suc 0) ''lw x1,''))
     \<and> column (last (parsedFile (while_body
           \<lparr>currentLine = 1, currentColumn = 1, parsedFile = [], instructions = {''lw''}\<rparr> ''lw x1,''))) = 4"
    using end_of_line_token [where source = "\<lparr>is_open = True, content = ''lw x1,'' @ [CHR 0x0A] @ '' : ''\<rparr>"
        and parsedFileRef = "[]" and ins = "{''lw''}" and n = "Suc 0" and ln = "''lw x1,''"
        and lx = "\<lparr>currentLine = 1, currentColumn = 1, parsedFile = [], instructions = {''lw''}\<rparr>"]
    by (simp add: run_starts_def word_char_def list_all_iff)
  have second_line:
    "column (last (parsedFile (while_body
         \<lparr>currentLine = 2, currentColumn = 1, parsedFile = [], instructions = {''lw''}\<rparr> '' : ''))) = 1"
    using end_of_line_token [where source = "\<lparr>is_open = True, content = ''lw x1,'' @ [CHR 0x0A] @ '' : ''\<rparr>"
        and parsedFileRef = "[]" and ins = "{''lw''}" and n = "Suc (Suc 0)" and ln = "'' : ''"
        and lx = "\<lparr>currentLine = 2, currentColumn = 1, parsedFile = [], instructions = {''lw''}\<rparr>"]
    by (simp add: run_starts_def word_char_def)
  from first_line second_line show ?thesis by blast
qed

text \<open>
  C10. For a line without word characters the round appends the \<open>END_OF_LINE\<close> token
  alone, with column 1.  The column is 1 at the start of every round: every round ends
  with \<open>currentColumn\<close> reset to 1, and so does the constructor.
\<close>

theorem blank_line_column:
  "(is_open source \<longrightarrow>
      fst (Lexer_ctor source parsedFileRef ins) =
        parsedFileRef @ concat (map (\<lambda>k. line_output ins (Suc k) (getlines (content source) ! k))
                                  [0..<length (getlines (content source))]))
   \<and> ((\<forall>c \<in> set ln. \<not> word_char c) \<longrightarrow>
        line_output ins n ln =
          [\<lparr>type = END_OF_LINE, lexeme = [CHR 0x0A], line = word_of_nat n, column = 1\<rparr>])
   \<and> currentColumn (while_body lx ln) = 1
   \<and> (is_open source \<longrightarrow>
        (\<exists>lx'. snd (Lexer_ctor source parsedFileRef ins) = Inr lx' \<and> currentColumn lx' = 1))"
proof (intro conjI impI)
  assume "is_open source"
  then show "fst (Lexer_ctor source parsedFileRef ins) =
        parsedFileRef @ concat (map (\<lambda>k. line_output ins (Suc k) (getlines (content source) ! k))
                                  [0..<length (getlines (content source))])"
    by (rule Lexer_ctor_output)
next
  assume "\<forall>c \<in> set ln. \<not> word_char c"
  then have "run_starts ln = []" by (simp add: no_word_char_no_run)
  then have "sregex_iterator ln = []" by (simp add: sregex_iterator_Nil)
  then show "line_output ins n ln =
          [\<lparr>type = END_OF_LINE, lexeme = [CHR 0x0A], line = word_of_nat n, column = 1\<rparr>]"
    by (simp add: line_output_eq)
next
  show "currentColumn (while_body lx ln) = 1" by (rule while_body_resets)
next
  assume "is_open source"
  then show "\<exists>lx'. snd (Lexer_ctor source parsedFileRef ins) = Inr lx' \<and> currentColumn lx' = 1"
    by (simp add: Lexer_ctor_eq)
qed

text \<open>A line of separators and an empty line, after a line with a token.\<close>

theorem blank_line_column_witness:
  "fst (Lexer_ctor \<lparr>is_open = True, content = ''x1'' @ [CHR 0x0A] @ '' , :'' @ [CHR 0x0A, CHR 0x0A]\<rparr>
          [] {''lw''})
     = line_output {''lw''} (Suc 0) ''x1''
       @ [\<lparr>type = END_OF_LINE, lexeme = [CHR 0x0A], line = 2, column = 1\<rparr>,
          \<lparr>type = END_OF_LINE, lexeme = [CHR 0x0A], line = 3, column = 1\<rparr>]"
proof -
  have second_line:
    "fst (Lexer_ctor \<lparr>is_open = True, content = ''x1'' @ [CHR 0x0A] @ '' , :'' @ [CHR 0x0A, CHR 0x0A]\<rparr>
          [] {''lw''})
     = line_output {''lw''} (Suc 0) ''x1''
       @ [\<lparr>type = END_OF_LINE, lexeme = [CHR 0x0A], line = 2, column = 1\<rparr>]
       @ line_output {''lw''} (Suc (Suc (Suc 0))) []"
    using blank_line_column [where source = "\<lparr>is_open = True, content = ''x1'' @ [CHR 0x0A] @ '' , :'' @ [CHR 0x0A, CHR 0x0A]\<rparr>"
        and parsedFileRef = "[]" and ins = "{''lw''}" and ln = "'' , :''" and n = "Suc (Suc 0)"
        and lx = "\<lparr>currentLine = 2, currentColumn = 1, parsedFile = [], instructions = {''lw''}\<rparr>"]
    by (simp add: word_char_def)
  have third_line:
    "line_output {''lw''} (Suc (Suc (Suc 0))) []
       = [\<lparr>type = END_OF_LINE, lexeme = [CHR 0x0A], line = 3, column = 1\<rparr>]"
    using blank_line_column [where source = "\<lparr>is_open = True, content = ''x1'' @ [CHR 0x0A] @ '' , :'' @ [CHR 0x0A, CHR 0x0A]\<rparr>"
        and parsedFileRef = "[]" and ins = "{''lw''}" and ln = "[]" and n = "Suc (Suc (Suc 0))"
        and lx = "\<lparr>currentLine = 3, currentColumn = 1, parsedFile = [], instructions = {''lw''}\<rparr>"]
    by (simp add: word_char_def)
  show ?thesis unfolding second_line third_line by simp
qed

section \<open>Tokens and runs\<close>

text \<open>
  C7. The tokens that a line contributes, the \<open>END_OF_LINE\<close> token apart, are as many
  as the line has maximal runs of word characters, in the same order: the token number
  \<open>j\<close> has as lexeme the run that starts at the \<open>j\<close>-th run start, and as column that
  offset counted from 1.  Every token of the line carries the line number counted from
  1.  Line and column are \<^verbatim>\<open>int\<close> fields: they hold these numbers as values whenever the
  numbers fit an \<^verbatim>\<open>int\<close>, that is for lines shorter than \<open>2^31\<close> characters and line
  numbers below \<open>2^31\<close>.
\<close>

theorem tokens_are_word_runs:
  "(is_open source \<longrightarrow>
      fst (Lexer_ctor source parsedFileRef ins) =
        parsedFileRef @ concat (map (\<lambda>k. line_output ins (Suc k) (getlines (content source) ! k))
                                  [0..<length (getlines (content source))]))
   \<and> length (filter (\<lambda>t. type t \<noteq> END_OF_LINE) (line_output ins n ln)) = length (run_starts ln)
   \<and> length (line_output ins n ln) = Suc (length (run_starts ln))
   \<and> (\<forall>j < length (run_starts ln).
         type (line_output ins n ln ! j) \<noteq> END_OF_LINE
         \<and> lexeme (line_output ins n ln ! j) = takeWhile word_char (drop (run_starts ln ! j) ln)
         \<and> column (line_output ins n ln ! j) = word_of_nat (run_starts ln ! j + 1)
         \<and> (length ln < 2 ^ 31 \<longrightarrow>
              sint (column (line_output ins n ln ! j)) = int (run_starts ln ! j) + 1))
   \<and> (\<forall>t \<in> set (line_output ins n ln).
         line t = word_of_nat n \<and> (n < 2 ^ 31 \<longrightarrow> sint (line t) = int n))"
proof (intro conjI impI allI ballI)
  assume "is_open source"
  then show "fst (Lexer_ctor source parsedFileRef ins) =
        parsedFileRef @ concat (map (\<lambda>k. line_output ins (Suc k) (getlines (content source) ! k))
                                  [0..<length (getlines (content source))])"
    by (rule Lexer_ctor_output)
next
  have "filter (\<lambda>t. type t \<noteq> END_OF_LINE) (line_output ins n ln) = butlast (line_output ins n ln)"
    by (simp add: line_output_eq type_tokenize token_type_not_eol split_def)
  then show "length (filter (\<lambda>t. type t \<noteq> END_OF_LINE) (line_output ins n ln)) = length (run_starts ln)"
    by (simp add: line_output_length)
next
  show "length (line_output ins n ln) = Suc (length (run_starts ln))"
    by (rule line_output_length)
next
  fix j assume j: "j < length (run_starts ln)"
  show "type (line_output ins n ln ! j) \<noteq> END_OF_LINE"
    by (simp add: line_output_nth [OF j] type_tokenize token_type_not_eol)
  show "lexeme (line_output ins n ln ! j) = takeWhile word_char (drop (run_starts ln ! j) ln)"
    by (simp add: line_output_nth [OF j] tokenize_def)
  show col: "column (line_output ins n ln ! j) = word_of_nat (run_starts ln ! j + 1)"
    by (simp add: line_output_nth [OF j] tokenize_def)
  assume "length ln < 2 ^ 31"
  moreover have "run_starts ln ! j < length ln" using j by (intro run_starts_bound) simp
  ultimately have "run_starts ln ! j + 1 < 2 ^ 31" by simp
  then show "sint (column (line_output ins n ln ! j)) = int (run_starts ln ! j) + 1"
    unfolding col by (simp only: sint_word_of_nat)
next
  fix t assume t: "t \<in> set (line_output ins n ln)"
  then show l: "line t = word_of_nat n" by (rule line_output_line)
  assume "n < 2 ^ 31"
  then show "sint (line t) = int n" unfolding l by (rule sint_word_of_nat)
qed

text \<open>The line \<^verbatim>\<open>lw x1,\<close>: two runs, the second is \<^verbatim>\<open>x1\<close> at column 4 of line 1.\<close>

theorem tokens_are_word_runs_witness:
  "fst (Lexer_ctor \<lparr>is_open = True, content = ''lw x1,'' @ [CHR 0x0A] @ '' : ''\<rparr> [] {''lw''})
     = line_output {''lw''} (Suc 0) ''lw x1,'' @ line_output {''lw''} (Suc (Suc 0)) '' : ''
   \<and> length (filter (\<lambda>t. type t \<noteq> END_OF_LINE) (line_output {''lw''} (Suc 0) ''lw x1,'')) = 2
   \<and> lexeme (line_output {''lw''} (Suc 0) ''lw x1,'' ! 1) = ''x1''
   \<and> sint (column (line_output {''lw''} (Suc 0) ''lw x1,'' ! 1)) = 4
   \<and> list_all (\<lambda>t. sint (line t) = 1) (line_output {''lw''} (Suc 0) ''lw x1,'')"
proof -
  note claim = tokens_are_word_runs
    [where source = "\<lparr>is_open = True, content = ''lw x1,'' @ [CHR 0x0A] @ '' : ''\<rparr>"
       and parsedFileRef = "[]" and ins = "{''lw''}" and n = "Suc 0" and ln = "''lw x1,''"]
  have rs: "run_starts ''lw x1,'' = [0, 3]"
    by (simp add: run_starts_def word_char_def)
  have len: "length ''lw x1,'' < (2::nat) ^ 31" and n: "Suc 0 < 2 ^ 31"
    by simp_all
  from claim have "fst (Lexer_ctor \<lparr>is_open = True, content = ''lw x1,'' @ [CHR 0x0A] @ '' : ''\<rparr> [] {''lw''})
     = line_output {''lw''} (Suc 0) ''lw x1,'' @ line_output {''lw''} (Suc (Suc 0)) '' : ''"
    by simp
  moreover from claim
  have "length (filter (\<lambda>t. type t \<noteq> END_OF_LINE) (line_output {''lw''} (Suc 0) ''lw x1,'')) = 2"
    unfolding rs by simp
  moreover from claim have "\<forall>j < length (run_starts ''lw x1,'').
         lexeme (line_output {''lw''} (Suc 0) ''lw x1,'' ! j)
           = takeWhile word_char (drop (run_starts ''lw x1,'' ! j) ''lw x1,'')
         \<and> (length ''lw x1,'' < 2 ^ 31 \<longrightarrow>
              sint (column (line_output {''lw''} (Suc 0) ''lw x1,'' ! j))
                = int (run_starts ''lw x1,'' ! j) + 1)"
    by blast
  then have "lexeme (line_output {''lw''} (Suc 0) ''lw x1,'' ! 1) = ''x1''
      \<and> sint (column (line_output {''lw''} (Suc 0) ''lw x1,'' ! 1)) = 4"
    unfolding rs using len by (simp add: word_char_def)
  moreover from claim n
  have "list_all (\<lambda>t. sint (line t) = 1) (line_output {''lw''} (Suc 0) ''lw x1,'')"
    by (simp add: list_all_iff)
  ultimately show ?thesis by blast
qed

end
